theory Spec2Isabelle
  imports Main
begin

section \<open>Data model\<close>

text \<open>
  The module \<^verbatim>\<open>src/amqplib-auto-recovery.js\<close> decorates an AMQP client: its
  \<^verbatim>\<open>connect(url, connectCallback)\<close> drives connect attempts through a backoff call and
  reconnects after an unexpected close. The raw client, the backoff package and the caller
  are the environment: what they do to the module arrives as an \<open>event\<close>, what the module
  does to them is logged as an \<open>effect\<close>.

  A JavaScript error object is modelled by the two properties the source reads,
  \<^verbatim>\<open>e.name\<close> and \<^verbatim>\<open>e.message\<close>. Every error is an object, hence truthy.
\<close>

record js_error =
  name :: string
  message :: string

text \<open>Raw connections, raw channels and caller-supplied callbacks are known by identity.\<close>

type_synonym con = nat
type_synonym chan = nat
type_synonym callback = nat

text \<open>Calls that leave the module, in the order in which the source makes them.\<close>

datatype effect =
    AmqpConnect
      \<comment> \<open>\<^verbatim>\<open>amqp.connect(url, ...)\<close>\<close>
  | ConnectCallback "js_error option" "con option"
      \<comment> \<open>\<^verbatim>\<open>connectCallback(err)\<close> or \<^verbatim>\<open>connectCallback(null, wrapper)\<close>, the wrapper
          named by the raw connection it is created from\<close>
  | BackoffCb "js_error option"
      \<comment> \<open>\<^verbatim>\<open>cb(err)\<close>, \<^verbatim>\<open>cb(null)\<close>, \<^verbatim>\<open>cb()\<close>: the completion handler of the attempt\<close>
  | OnGiveUp
      \<comment> \<open>the last argument of \<^verbatim>\<open>backoff.call\<close>, \<^verbatim>\<open>() => {}\<close> in the source\<close>
  | OnError string
      \<comment> \<open>\<^verbatim>\<open>onError(new Error(msg))\<close>\<close>
  | NextTickConnect
      \<comment> \<open>\<^verbatim>\<open>process.nextTick(connect, url, connectCallback)\<close>\<close>
  | ConClose con "callback option"
      \<comment> \<open>\<^verbatim>\<open>con.close(cb)\<close>, \<^verbatim>\<open>con.close()\<close>\<close>
  | ConCreateChannel con callback
  | ConCreateConfirmChannel con callback
  | ChannelCb callback "js_error option" "chan option"
      \<comment> \<open>\<^verbatim>\<open>cb(err)\<close> or \<^verbatim>\<open>cb(null, proxy)\<close>, the proxy named by its raw channel\<close>
  | ChClose chan "callback option"
      \<comment> \<open>\<^verbatim>\<open>target.close(cb)\<close>\<close>
  | Uncaught js_error
      \<comment> \<open>an exception leaves the handler\<close>

text \<open>The variables captured per channel (lines 78 and 79 of the source).\<close>

record channel_vars =
  channelClosedByClient :: bool
  channelClosed :: bool

text \<open>
  Modelled from the spec: the backoff package is not part of the repository. Section 4.1 of
  the specification describes its function call: the attempt is invoked with a completion
  handler; a truthy argument schedules another invocation after a delay, without a ceiling;
  a falsy argument stops the loop, which then invokes the callback given last to
  \<^verbatim>\<open>backoff.call\<close>. The delays themselves are not modelled.
\<close>

datatype call_state =
    Pending     \<comment> \<open>an attempt is in flight: \<^verbatim>\<open>amqp.connect\<close> has not called back yet\<close>
  | Waiting     \<comment> \<open>the delay before the next attempt is running\<close>
  | Completed   \<comment> \<open>the loop has stopped\<close>

definition backoff_handler :: "js_error option \<Rightarrow> call_state \<times> effect list" where
  "backoff_handler err = (case err of Some e \<Rightarrow> (Waiting, []) | None \<Rightarrow> (Completed, [OnGiveUp]))"

text \<open>
  The variables captured by one call of \<^verbatim>\<open>connect\<close>: \<^verbatim>\<open>activeConnection\<close> (line 25),
  the backoff call \<^verbatim>\<open>spec\<close> (line 26) and, once an attempt has succeeded, the raw
  connection \<^verbatim>\<open>con\<close> with \<^verbatim>\<open>lastError\<close> (line 33), \<^verbatim>\<open>connectionClosed\<close> (line 39) and the
  variables of each channel that was wrapped. A JavaScript reference that is \<^verbatim>\<open>null\<close> or
  \<^verbatim>\<open>undefined\<close> is \<open>None\<close>.
\<close>

record connect_vars =
  activeConnection :: "con option"
  spec :: call_state
  con :: "con option"
  lastError :: "js_error option"
  connectionClosed :: bool
  channels :: "chan \<rightharpoonup> channel_vars"

section \<open>The handlers of the source\<close>

text \<open>
  \<^verbatim>\<open>connect(url, connectCallback)\<close>, lines 24 to 142: \<^verbatim>\<open>activeConnection\<close> starts as
  \<^verbatim>\<open>null\<close> and \<^verbatim>\<open>spec.start()\<close> runs the first attempt, which calls \<^verbatim>\<open>amqp.connect\<close>.
\<close>

definition connect :: "connect_vars \<times> effect list" where
  "connect =
     (\<lparr>activeConnection = None, spec = Pending, con = None, lastError = None,
       connectionClosed = False, channels = Map.empty\<rparr>,
      [AmqpConnect])"

text \<open>
  The callback given to \<^verbatim>\<open>amqp.connect\<close>, lines 27 to 132. With an error it reports to
  \<^verbatim>\<open>connectCallback\<close> and hands the backoff handler the error, or \<^verbatim>\<open>null\<close> when the
  classifier says the error is unrecoverable (lines 28 to 32).
\<close>

definition amqp_connect_failed ::
  "(js_error \<Rightarrow> bool) \<Rightarrow> connect_vars \<Rightarrow> js_error \<Rightarrow> connect_vars \<times> effect list" where
  "amqp_connect_failed isErrorUnrecoverable s err =
     (let arg = (if \<not> isErrorUnrecoverable err then Some err else None);
          (st, effs) = backoff_handler arg
      in (s\<lparr>spec := st\<rparr>, [ConnectCallback (Some err) None, BackoffCb arg] @ effs))"

text \<open>
  Without an error (lines 33 to 131) it sets \<^verbatim>\<open>activeConnection\<close>, installs the
  listeners, declares \<^verbatim>\<open>connectionClosed = false\<close>, delivers the wrapper and calls
  \<^verbatim>\<open>cb()\<close>.
\<close>

definition amqp_connect_ok :: "connect_vars \<Rightarrow> con \<Rightarrow> connect_vars \<times> effect list" where
  "amqp_connect_ok s c =
     (let (st, effs) = backoff_handler None
      in (s\<lparr>lastError := None, activeConnection := Some c, con := Some c,
             connectionClosed := False, channels := Map.empty, spec := st\<rparr>,
          [ConnectCallback None (Some c), BackoffCb None] @ effs))"

text \<open>The scheduler invokes the attempt again when the delay has elapsed (lines 26, 27).\<close>

definition attempt :: "connect_vars \<Rightarrow> connect_vars \<times> effect list" where
  "attempt s = (s\<lparr>spec := Pending\<rparr>, [AmqpConnect])"

text \<open>\<^verbatim>\<open>con.on('error', ...)\<close>, lines 35 to 38.\<close>

definition con_on_error :: "connect_vars \<Rightarrow> js_error \<Rightarrow> connect_vars \<times> effect list" where
  "con_on_error s err =
     (s\<lparr>lastError := Some err\<rparr>, [OnError (''Connection failed ('' @ message err @ '')'')])"

text \<open>\<^verbatim>\<open>con.on('close', ...)\<close>, lines 40 to 53.\<close>

definition con_on_close ::
  "(js_error \<Rightarrow> bool) \<Rightarrow> connect_vars \<Rightarrow> connect_vars \<times> effect list" where
  "con_on_close isErrorUnrecoverable s =
     (s\<lparr>connectionClosed := True\<rparr>,
      if activeConnection s \<noteq> None then
        (if (case lastError s of None \<Rightarrow> True | Some e \<Rightarrow> \<not> isErrorUnrecoverable e)
         then [NextTickConnect] else [])
      else [])"

text \<open>
  \<^verbatim>\<open>closeConnection\<close>, lines 54 to 63. What the raw \<^verbatim>\<open>con.close()\<close> does is the
  environment's choice: \<open>thrown\<close> is the exception it raises, \<open>None\<close> when it returns. The
  result is \<open>Inl\<close> the exception that is thrown on.
\<close>

definition closeConnection ::
  "con \<Rightarrow> js_error option \<Rightarrow> effect list \<times> (js_error + unit)" where
  "closeConnection c thrown =
     ([ConClose c None],
      case thrown of
        None \<Rightarrow> Inr ()
      | Some e \<Rightarrow> if name e \<noteq> ''IllegalOperationError'' then Inl e else Inr ())"

text \<open>An exception that leaves a handler is logged after the handler's other effects.\<close>

definition uncaught :: "js_error + unit \<Rightarrow> effect list" where
  "uncaught r = (case r of Inl e \<Rightarrow> [Uncaught e] | Inr _ \<Rightarrow> [])"

text \<open>\<^verbatim>\<open>channelCallback\<close> with an error, lines 65 to 73.\<close>

definition channelCallback_err ::
  "connect_vars \<Rightarrow> con \<Rightarrow> callback \<Rightarrow> js_error \<Rightarrow> js_error option \<Rightarrow>
   connect_vars \<times> effect list \<times> (js_error + unit)" where
  "channelCallback_err s c cb err thrown =
     (let (effs, r) = closeConnection c thrown
      in (s\<lparr>lastError := Some err\<rparr>,
          [OnError (''Failed to create a channel ('' @ message err @ '')''),
           ChannelCb cb (Some err) None] @ effs,
          r))"

text \<open>
  \<^verbatim>\<open>channelCallback\<close> with a channel, lines 74 to 100: the listeners are installed,
  \<^verbatim>\<open>channelClosedByClient\<close> is declared without a value (falsy),
  \<^verbatim>\<open>channelClosed = false\<close>, and the proxy is handed to the caller.
\<close>

definition channelCallback_ok ::
  "connect_vars \<Rightarrow> callback \<Rightarrow> chan \<Rightarrow> connect_vars \<times> effect list" where
  "channelCallback_ok s cb ch =
     (s\<lparr>channels := (channels s)(ch \<mapsto> \<lparr>channelClosedByClient = False, channelClosed = False\<rparr>)\<rparr>,
      [ChannelCb cb None (Some ch)])"

text \<open>\<^verbatim>\<open>ch.on('error', ...)\<close>, lines 74 to 77.\<close>

definition ch_on_error :: "connect_vars \<Rightarrow> js_error \<Rightarrow> connect_vars \<times> effect list" where
  "ch_on_error s err =
     (s\<lparr>lastError := Some err\<rparr>, [OnError (''Channel failed ('' @ message err @ '')'')])"

text \<open>\<^verbatim>\<open>ch.on('close', ...)\<close>, lines 80 to 85.\<close>

definition ch_on_close ::
  "connect_vars \<Rightarrow> con \<Rightarrow> chan \<Rightarrow> channel_vars \<Rightarrow> js_error option \<Rightarrow>
   connect_vars \<times> effect list \<times> (js_error + unit)" where
  "ch_on_close s c ch v thrown =
     (let s' = s\<lparr>channels := (channels s)(ch \<mapsto> v\<lparr>channelClosed := True\<rparr>)\<rparr>
      in if channelClosedByClient v then (s', [], Inr ())
         else (let (effs, r) = closeConnection c thrown in (s', effs, r)))"

text \<open>
  The channel proxy, lines 86 to 100: \<^verbatim>\<open>close(cb)\<close> and the property \<^verbatim>\<open>closed\<close>.
  \<open>thrown\<close> is what the raw \<^verbatim>\<open>target.close(cb)\<close> raises.
\<close>

definition channel_close ::
  "connect_vars \<Rightarrow> chan \<Rightarrow> channel_vars \<Rightarrow> callback option \<Rightarrow> js_error option \<Rightarrow>
   connect_vars \<times> effect list \<times> (js_error + unit)" where
  "channel_close s ch v cb thrown =
     (s\<lparr>channels := (channels s)(ch \<mapsto> v\<lparr>channelClosedByClient := True\<rparr>)\<rparr>,
      [ChClose ch cb],
      case thrown of None \<Rightarrow> Inr () | Some e \<Rightarrow> Inl e)"

definition channel_closed :: "connect_vars \<Rightarrow> chan \<Rightarrow> bool option" where
  "channel_closed s ch = map_option channelClosed (channels s ch)"

text \<open>The connection wrapper, lines 102 to 130.\<close>

definition createChannel :: "connect_vars \<Rightarrow> con \<Rightarrow> callback \<Rightarrow> connect_vars \<times> effect list" where
  "createChannel s c cb = (s, [ConCreateChannel c cb])"

definition createConfirmChannel ::
  "connect_vars \<Rightarrow> con \<Rightarrow> callback \<Rightarrow> connect_vars \<times> effect list" where
  "createConfirmChannel s c cb = (s, [ConCreateConfirmChannel c cb])"

definition close ::
  "connect_vars \<Rightarrow> con \<Rightarrow> callback option \<Rightarrow> js_error option \<Rightarrow>
   connect_vars \<times> effect list \<times> (js_error + unit)" where
  "close s c cb thrown =
     (s\<lparr>activeConnection := None\<rparr>,
      [ConClose c cb],
      case thrown of None \<Rightarrow> Inr () | Some e \<Rightarrow> Inl e)"

definition closeAndReconnect ::
  "connect_vars \<Rightarrow> con \<Rightarrow> callback option \<Rightarrow> js_error option \<Rightarrow>
   connect_vars \<times> effect list \<times> (js_error + unit)" where
  "closeAndReconnect s c cb thrown =
     (s, [ConClose c cb], case thrown of None \<Rightarrow> Inr () | Some e \<Rightarrow> Inl e)"

definition closed :: "connect_vars \<Rightarrow> bool" where
  "closed s = connectionClosed s"

section \<open>Events and executions\<close>

text \<open>
  What the environment does to one call of \<^verbatim>\<open>connect\<close>. The raw client decides
  whether a \<^verbatim>\<open>close\<close> call raises, so the events that lead to such a call carry that
  choice (\<open>None\<close>: the call returns).
\<close>

datatype event =
    AmqpConnectError js_error
      \<comment> \<open>\<^verbatim>\<open>amqp.connect\<close> calls back with an error\<close>
  | AmqpConnectOk con
      \<comment> \<open>\<^verbatim>\<open>amqp.connect\<close> calls back with a raw connection\<close>
  | BackoffElapsed
      \<comment> \<open>the delay is over\<close>
  | ConErrorEvent js_error
      \<comment> \<open>the raw connection emits \<^verbatim>\<open>error\<close>\<close>
  | ConCloseEvent
      \<comment> \<open>the raw connection emits \<^verbatim>\<open>close\<close>\<close>
  | CallCreateChannel callback
  | CallCreateConfirmChannel callback
  | CallClose "callback option" "js_error option"
      \<comment> \<open>the caller invokes the wrapper's \<^verbatim>\<open>close(cb)\<close>\<close>
  | CallCloseAndReconnect "callback option" "js_error option"
      \<comment> \<open>the caller invokes the wrapper's \<^verbatim>\<open>closeAndReconnect(cb)\<close>\<close>
  | ChannelError callback js_error "js_error option"
      \<comment> \<open>the raw \<^verbatim>\<open>createChannel\<close> or \<^verbatim>\<open>createConfirmChannel\<close> calls back with an error\<close>
  | ChannelOk callback chan
      \<comment> \<open>the raw \<^verbatim>\<open>createChannel\<close> or \<^verbatim>\<open>createConfirmChannel\<close> calls back with a channel\<close>
  | ChErrorEvent chan js_error
      \<comment> \<open>a raw channel emits \<^verbatim>\<open>error\<close>\<close>
  | ChCloseEvent chan "js_error option"
      \<comment> \<open>a raw channel emits \<^verbatim>\<open>close\<close>\<close>
  | CallChannelClose chan "callback option" "js_error option"
      \<comment> \<open>the caller invokes a channel proxy's \<^verbatim>\<open>close(cb)\<close>\<close>

definition throwing ::
  "connect_vars \<times> effect list \<times> (js_error + unit) \<Rightarrow> connect_vars \<times> effect list" where
  "throwing x = (case x of (s, effs, r) \<Rightarrow> (s, effs @ uncaught r))"

text \<open>
  One event, dispatched to the handler the source installs for it. An event that cannot
  occur in a state leaves it as it is: \<^verbatim>\<open>amqp.connect\<close> calls back only while an attempt
  is in flight, the delay elapses only while the scheduler waits, the connection's
  listeners and its wrapper exist only once an attempt has succeeded, a channel's listeners
  and its proxy exist only once the channel was wrapped, and the raw client hands out a new
  channel object each time.

  A handler runs to its end in one step. What the caller does from inside one of its
  callbacks is the next event: after \<^verbatim>\<open>connectCallback\<close> the handler only calls
  \<^verbatim>\<open>cb()\<close> (line 131), and after the channel callback only \<^verbatim>\<open>closeConnection()\<close>
  (line 71), neither of which reads a variable that the wrapper's operations write.
\<close>

fun step :: "(js_error \<Rightarrow> bool) \<Rightarrow> connect_vars \<Rightarrow> event \<Rightarrow> connect_vars \<times> effect list" where
  "step iU s (AmqpConnectError err) =
     (if spec s = Pending then amqp_connect_failed iU s err else (s, []))"
| "step iU s (AmqpConnectOk c) =
     (if spec s = Pending then amqp_connect_ok s c else (s, []))"
| "step iU s BackoffElapsed =
     (if spec s = Waiting then attempt s else (s, []))"
| "step iU s (ConErrorEvent err) =
     (case con s of None \<Rightarrow> (s, []) | Some c \<Rightarrow> con_on_error s err)"
| "step iU s ConCloseEvent =
     (case con s of None \<Rightarrow> (s, []) | Some c \<Rightarrow> con_on_close iU s)"
| "step iU s (CallCreateChannel cb) =
     (case con s of None \<Rightarrow> (s, []) | Some c \<Rightarrow> createChannel s c cb)"
| "step iU s (CallCreateConfirmChannel cb) =
     (case con s of None \<Rightarrow> (s, []) | Some c \<Rightarrow> createConfirmChannel s c cb)"
| "step iU s (CallClose cb thrown) =
     (case con s of None \<Rightarrow> (s, []) | Some c \<Rightarrow> throwing (close s c cb thrown))"
| "step iU s (CallCloseAndReconnect cb thrown) =
     (case con s of None \<Rightarrow> (s, []) | Some c \<Rightarrow> throwing (closeAndReconnect s c cb thrown))"
| "step iU s (ChannelError cb err thrown) =
     (case con s of None \<Rightarrow> (s, [])
      | Some c \<Rightarrow> throwing (channelCallback_err s c cb err thrown))"
| "step iU s (ChannelOk cb ch) =
     (case con s of None \<Rightarrow> (s, [])
      | Some c \<Rightarrow> (case channels s ch of None \<Rightarrow> channelCallback_ok s cb ch | Some v \<Rightarrow> (s, [])))"
| "step iU s (ChErrorEvent ch err) =
     (case con s of None \<Rightarrow> (s, [])
      | Some c \<Rightarrow> (case channels s ch of None \<Rightarrow> (s, []) | Some v \<Rightarrow> ch_on_error s err))"
| "step iU s (ChCloseEvent ch thrown) =
     (case con s of None \<Rightarrow> (s, [])
      | Some c \<Rightarrow> (case channels s ch of None \<Rightarrow> (s, [])
                  | Some v \<Rightarrow> throwing (ch_on_close s c ch v thrown)))"
| "step iU s (CallChannelClose ch cb thrown) =
     (case con s of None \<Rightarrow> (s, [])
      | Some c \<Rightarrow> (case channels s ch of None \<Rightarrow> (s, [])
                  | Some v \<Rightarrow> throwing (channel_close s ch v cb thrown)))"

text \<open>An execution: the events in order, the effects concatenated.\<close>

fun run :: "(js_error \<Rightarrow> bool) \<Rightarrow> connect_vars \<Rightarrow> event list \<Rightarrow> connect_vars \<times> effect list" where
  "run iU s [] = (s, [])"
| "run iU s (ev # evs) =
     (case step iU s ev of (s1, e1) \<Rightarrow>
        (case run iU s1 evs of (s2, e2) \<Rightarrow> (s2, e1 @ e2)))"

text \<open>The state in which the wrapper of raw connection \<open>c\<close> is in the caller's hands.\<close>

definition connected :: "connect_vars \<Rightarrow> con \<Rightarrow> bool" where
  "connected s c = (con s = Some c \<and> spec s = Completed)"

text \<open>Predicates on events and effects used to state the properties.\<close>

fun isConnectCallback :: "effect \<Rightarrow> bool" where
  "isConnectCallback (ConnectCallback e w) = True"
| "isConnectCallback _ = False"

fun isConClose :: "effect \<Rightarrow> bool" where
  "isConClose (ConClose c cb) = True"
| "isConClose _ = False"

fun isCallClose :: "event \<Rightarrow> bool" where
  "isCallClose (CallClose cb thrown) = True"
| "isCallClose _ = False"

fun isCallChannelClose :: "chan \<Rightarrow> event \<Rightarrow> bool" where
  "isCallChannelClose ch (CallChannelClose ch' cb thrown) = (ch' = ch)"
| "isCallChannelClose ch _ = False"

fun isChannelOk :: "chan \<Rightarrow> event \<Rightarrow> bool" where
  "isChannelOk ch (ChannelOk cb ch') = (ch' = ch)"
| "isChannelOk ch _ = False"

text \<open>The test of line 45 on \<^verbatim>\<open>lastError\<close>.\<close>

definition recoverable :: "(js_error \<Rightarrow> bool) \<Rightarrow> js_error option \<Rightarrow> bool" where
  "recoverable isErrorUnrecoverable err =
     (case err of None \<Rightarrow> True | Some e \<Rightarrow> \<not> isErrorUnrecoverable e)"

text \<open>
  Consecutive failed attempts: \<^verbatim>\<open>amqp.connect\<close> calls back with each error in turn, and
  the delay elapses after each.
\<close>

definition failures :: "js_error list \<Rightarrow> event list" where
  "failures errs = concat (map (\<lambda>e. [AmqpConnectError e, BackoffElapsed]) errs)"

text \<open>
  The classifier is the caller's function. The source calls it afresh at each failed
  attempt (line 30) and at each close event (line 45), so what it answers may change from
  one call to the next: a classifier that counts the attempts gives up on the third call
  whatever the error. A handler calls it at most once, so an execution with such a
  classifier pairs each event with the classifier as it answers at that moment.
\<close>

fun run_classified ::
  "connect_vars \<Rightarrow> ((js_error \<Rightarrow> bool) \<times> event) list \<Rightarrow> connect_vars \<times> effect list" where
  "run_classified s [] = (s, [])"
| "run_classified s ((iU, ev) # evs) =
     (case step iU s ev of (s1, e1) \<Rightarrow>
        (case run_classified s1 evs of (s2, e2) \<Rightarrow> (s2, e1 @ e2)))"

text \<open>Consecutive failed attempts, each with the classifier that judges it.\<close>

definition failed_attempts ::
  "((js_error \<Rightarrow> bool) \<times> js_error) list \<Rightarrow> ((js_error \<Rightarrow> bool) \<times> event) list" where
  "failed_attempts tries =
     concat (map (\<lambda>(iU, e). [(iU, AmqpConnectError e), (iU, BackoffElapsed)]) tries)"

text \<open>A classifier, three errors and two states used to instantiate the theorems below.\<close>

definition example_classifier :: "js_error \<Rightarrow> bool" where
  "example_classifier e = (name e = ''Fatal'')"

definition example_error :: js_error where
  "example_error = \<lparr>name = ''Error'', message = ''ECONNREFUSED''\<rparr>"

definition example_fatal :: js_error where
  "example_fatal = \<lparr>name = ''Fatal'', message = ''ACCESS_REFUSED''\<rparr>"

definition example_illegal :: js_error where
  "example_illegal = \<lparr>name = ''IllegalOperationError'', message = ''Connection closing''\<rparr>"

definition example_connected :: connect_vars where
  "example_connected = fst (step example_classifier (fst connect) (AmqpConnectOk 7))"

definition example_channel :: connect_vars where
  "example_channel = fst (step example_classifier example_connected (ChannelOk 1 3))"

section \<open>Basic facts\<close>

lemmas handler_defs =
  con_on_error_def con_on_close_def createChannel_def createConfirmChannel_def close_def
  closeAndReconnect_def channelCallback_err_def channelCallback_ok_def ch_on_error_def
  ch_on_close_def channel_close_def throwing_def closeConnection_def uncaught_def Let_def

lemmas example_defs =
  example_classifier_def example_error_def example_fatal_def example_illegal_def

lemma amqp_connect_failed_recoverable:
  "\<not> iU e \<Longrightarrow> amqp_connect_failed iU s e =
     (s\<lparr>spec := Waiting\<rparr>, [ConnectCallback (Some e) None, BackoffCb (Some e)])"
  by (simp add: amqp_connect_failed_def backoff_handler_def Let_def)

lemma amqp_connect_failed_unrecoverable:
  "iU e \<Longrightarrow> amqp_connect_failed iU s e =
     (s\<lparr>spec := Completed\<rparr>, [ConnectCallback (Some e) None, BackoffCb None, OnGiveUp])"
  by (simp add: amqp_connect_failed_def backoff_handler_def Let_def)

lemma amqp_connect_ok_eq:
  "amqp_connect_ok s c =
     (s\<lparr>lastError := None, activeConnection := Some c, con := Some c,
        connectionClosed := False, channels := Map.empty, spec := Completed\<rparr>,
      [ConnectCallback None (Some c), BackoffCb None, OnGiveUp])"
  by (simp add: amqp_connect_ok_def backoff_handler_def Let_def)

lemma connect_eq:
  "fst connect =
     \<lparr>activeConnection = None, spec = Pending, con = None, lastError = None,
      connectionClosed = False, channels = Map.empty\<rparr>"
  "snd connect = [AmqpConnect]"
  by (simp_all add: connect_def)

lemma example_connected_eq:
  "example_connected =
     \<lparr>activeConnection = Some 7, spec = Completed, con = Some 7, lastError = None,
      connectionClosed = False, channels = Map.empty\<rparr>"
  by (simp add: example_connected_def connect_eq amqp_connect_ok_eq)

lemma example_channel_eq:
  "example_channel =
     \<lparr>activeConnection = Some 7, spec = Completed, con = Some 7, lastError = None,
      connectionClosed = False,
      channels = [3 \<mapsto> \<lparr>channelClosedByClient = False, channelClosed = False\<rparr>]\<rparr>"
  by (simp add: example_channel_def example_connected_eq channelCallback_ok_def)

lemma run_append:
  "run iU s (xs @ ys) =
     (case run iU s xs of (s1, e1) \<Rightarrow> (case run iU s1 ys of (s2, e2) \<Rightarrow> (s2, e1 @ e2)))"
  by (induction xs arbitrary: s) (auto split: prod.splits)

lemma run_Cons:
  "fst (run iU s (ev # evs)) = fst (run iU (fst (step iU s ev)) evs)"
  "snd (run iU s (ev # evs)) = snd (step iU s ev) @ snd (run iU (fst (step iU s ev)) evs)"
  by (simp_all split: prod.splits)

subsection \<open>What every event preserves once a connection is established\<close>

lemma step_connected: "connected s c \<Longrightarrow> connected (fst (step iU s ev)) c"
  by (cases ev) (auto simp: connected_def handler_defs split: option.splits prod.splits)

lemma run_connected: "connected s c \<Longrightarrow> connected (fst (run iU s evs)) c"
proof (induction evs arbitrary: s)
  case Nil
  then show ?case by simp
next
  case (Cons ev evs)
  from Cons.prems have "connected (fst (step iU s ev)) c" by (rule step_connected)
  then have "connected (fst (run iU (fst (step iU s ev)) evs)) c" by (rule Cons.IH)
  then show ?case by (simp only: run_Cons)
qed

text \<open>Only the wrapper's \<^verbatim>\<open>close\<close> writes \<^verbatim>\<open>activeConnection\<close> after the connect.\<close>

lemma step_active:
  "connected s c \<Longrightarrow> \<not> isCallClose ev \<Longrightarrow>
     activeConnection (fst (step iU s ev)) = activeConnection s"
  by (cases ev) (auto simp: connected_def handler_defs split: option.splits prod.splits)

lemma run_active:
  "connected s c \<Longrightarrow> \<forall>ev\<in>set evs. \<not> isCallClose ev \<Longrightarrow>
     activeConnection (fst (run iU s evs)) = activeConnection s"
proof (induction evs arbitrary: s)
  case Nil
  then show ?case by simp
next
  case (Cons ev evs)
  let ?s1 = "fst (step iU s ev)"
  from Cons.prems have c1: "connected ?s1 c" by (simp add: step_connected)
  from Cons.prems have a1: "activeConnection ?s1 = activeConnection s"
    by (simp add: step_active)
  from Cons.prems have "\<forall>ev\<in>set evs. \<not> isCallClose ev" by simp
  from Cons.IH [OF c1 this] a1 show ?case by (simp only: run_Cons)
qed

text \<open>Nothing sets \<^verbatim>\<open>activeConnection\<close> again, and without it nothing reconnects.\<close>

lemma step_inactive:
  "connected s c \<Longrightarrow> activeConnection s = None \<Longrightarrow>
     activeConnection (fst (step iU s ev)) = None \<and> NextTickConnect \<notin> set (snd (step iU s ev))"
  by (cases ev)
    (auto simp: connected_def handler_defs split: option.splits prod.splits sum.splits if_splits)

lemma run_inactive:
  "connected s c \<Longrightarrow> activeConnection s = None \<Longrightarrow>
     activeConnection (fst (run iU s evs)) = None \<and> NextTickConnect \<notin> set (snd (run iU s evs))"
proof (induction evs arbitrary: s)
  case Nil
  then show ?case by simp
next
  case (Cons ev evs)
  let ?s1 = "fst (step iU s ev)"
  from Cons.prems have c1: "connected ?s1 c" by (simp add: step_connected)
  from Cons.prems have a1: "activeConnection ?s1 = None"
    "NextTickConnect \<notin> set (snd (step iU s ev))"
    using step_inactive by blast+
  from Cons.IH [OF c1 a1(1)] a1(2) show ?case by (simp only: run_Cons) simp
qed

text \<open>\<^verbatim>\<open>connectionClosed\<close> is written by the close handler alone.\<close>

lemma step_closed:
  "connected s c \<Longrightarrow> closed (fst (step iU s ev)) = (closed s \<or> ev = ConCloseEvent)"
  by (cases ev)
    (auto simp: closed_def connected_def handler_defs split: option.splits prod.splits)

lemma run_closed:
  "connected s c \<Longrightarrow> closed (fst (run iU s evs)) = (closed s \<or> ConCloseEvent \<in> set evs)"
proof (induction evs arbitrary: s)
  case Nil
  then show ?case by simp
next
  case (Cons ev evs)
  let ?s1 = "fst (step iU s ev)"
  from Cons.prems have c1: "connected ?s1 c" by (simp add: step_connected)
  from Cons.IH [OF c1] step_closed [OF Cons.prems] show ?case
    by (simp only: run_Cons) auto
qed

text \<open>\<^verbatim>\<open>channelClosedByClient\<close> of a channel is written by its proxy's \<^verbatim>\<open>close\<close> alone.\<close>

lemma step_channel:
  assumes "connected s c" "channels s ch = Some v"
  shows "\<exists>v'. channels (fst (step iU s ev)) ch = Some v' \<and>
           channelClosedByClient v' = (channelClosedByClient v \<or> isCallChannelClose ch ev)"
  using assms
  by (cases ev) (auto simp: connected_def handler_defs split: option.splits prod.splits)

lemma run_channel:
  assumes "connected s c" "channels s ch = Some v"
  shows "\<exists>v'. channels (fst (run iU s evs)) ch = Some v' \<and>
           channelClosedByClient v' =
             (channelClosedByClient v \<or> (\<exists>ev\<in>set evs. isCallChannelClose ch ev))"
  using assms
proof (induction evs arbitrary: s v)
  case Nil
  then show ?case by simp
next
  case (Cons ev evs)
  let ?s1 = "fst (step iU s ev)"
  from Cons.prems have c1: "connected ?s1 c" by (simp add: step_connected)
  from step_channel [OF Cons.prems, of iU ev] obtain v1 where
    v1: "channels ?s1 ch = Some v1"
      "channelClosedByClient v1 = (channelClosedByClient v \<or> isCallChannelClose ch ev)"
    by blast
  from Cons.IH [OF c1 v1(1)] v1(2) show ?case
    by (simp only: run_Cons) auto
qed

subsection \<open>The attempt loop\<close>

lemma spec_Pending_id: "spec s = Pending \<Longrightarrow> s\<lparr>spec := Pending\<rparr> = s"
  by (cases s) simp

lemma failed_attempt:
  assumes "spec s = Pending" "\<not> iU e"
  shows "run iU s (AmqpConnectError e # BackoffElapsed # evs) =
           (fst (run iU s evs),
            [ConnectCallback (Some e) None, BackoffCb (Some e), AmqpConnect] @ snd (run iU s evs))"
  using assms
  by (simp add: amqp_connect_failed_recoverable attempt_def spec_Pending_id
      split: prod.splits)

lemma run_failures:
  assumes "spec s = Pending" "\<forall>e\<in>set errs. \<not> iU e"
  shows "run iU s (failures errs @ evs) =
           (fst (run iU s evs),
            concat (map (\<lambda>e. [ConnectCallback (Some e) None, BackoffCb (Some e), AmqpConnect]) errs)
            @ snd (run iU s evs))"
  using assms
proof (induction errs)
  case Nil
  then show ?case by (simp add: failures_def)
next
  case (Cons e errs)
  have f: "failures (e # errs) @ evs = AmqpConnectError e # BackoffElapsed # (failures errs @ evs)"
    by (simp add: failures_def)
  from Cons.prems have e: "\<not> iU e" and r: "\<forall>e\<in>set errs. \<not> iU e" by simp_all
  have "run iU s (failures (e # errs) @ evs) =
      (fst (run iU s (failures errs @ evs)),
       [ConnectCallback (Some e) None, BackoffCb (Some e), AmqpConnect] @
       snd (run iU s (failures errs @ evs)))"
    unfolding f using Cons.prems(1) e by (rule failed_attempt)
  also have "run iU s (failures errs @ evs) =
      (fst (run iU s evs),
       concat (map (\<lambda>e. [ConnectCallback (Some e) None, BackoffCb (Some e), AmqpConnect]) errs)
       @ snd (run iU s evs))"
    using Cons.prems(1) r by (rule Cons.IH)
  finally show ?case by simp
qed

lemma filter_failures:
  "filter isConnectCallback
     (concat (map (\<lambda>e. [ConnectCallback (Some e) None, BackoffCb (Some e), AmqpConnect]) errs)) =
   map (\<lambda>e. ConnectCallback (Some e) None) errs"
  by (induction errs) simp_all

lemma count_failures:
  "count_list
     (concat (map (\<lambda>e. [ConnectCallback (Some e) None, BackoffCb (Some e), AmqpConnect]) errs))
     AmqpConnect = length errs"
  by (induction errs) simp_all

text \<open>With one classifier throughout, the two kinds of execution agree.\<close>

lemma run_classified_const: "run_classified s (map (Pair iU) evs) = run iU s evs"
  by (induction evs arbitrary: s) (simp_all split: prod.splits)

lemma failed_attempt_classified:
  assumes "spec s = Pending" "\<not> iU e"
  shows "run_classified s ((iU, AmqpConnectError e) # (iU, BackoffElapsed) # evs) =
           (fst (run_classified s evs),
            [ConnectCallback (Some e) None, BackoffCb (Some e), AmqpConnect] @
            snd (run_classified s evs))"
  using assms
  by (simp add: amqp_connect_failed_recoverable attempt_def spec_Pending_id
      split: prod.splits)

lemma run_failed_attempts:
  assumes "spec s = Pending" "\<forall>(f, x)\<in>set tries. \<not> f x"
  shows "run_classified s (failed_attempts tries @ evs) =
           (fst (run_classified s evs),
            concat (map (\<lambda>(f, x). [ConnectCallback (Some x) None, BackoffCb (Some x), AmqpConnect])
              tries)
            @ snd (run_classified s evs))"
  using assms
proof (induction tries)
  case Nil
  then show ?case by (simp add: failed_attempts_def)
next
  case (Cons t tries)
  obtain f x where t: "t = (f, x)" by (cases t)
  have a: "failed_attempts (t # tries) @ evs =
      (f, AmqpConnectError x) # (f, BackoffElapsed) # (failed_attempts tries @ evs)"
    by (simp add: failed_attempts_def t)
  from Cons.prems have x: "\<not> f x" and r: "\<forall>(f, x)\<in>set tries. \<not> f x" by (simp_all add: t)
  have "run_classified s (failed_attempts (t # tries) @ evs) =
      (fst (run_classified s (failed_attempts tries @ evs)),
       [ConnectCallback (Some x) None, BackoffCb (Some x), AmqpConnect] @
       snd (run_classified s (failed_attempts tries @ evs)))"
    unfolding a using Cons.prems(1) x by (rule failed_attempt_classified)
  also have "run_classified s (failed_attempts tries @ evs) =
      (fst (run_classified s evs),
       concat (map (\<lambda>(f, x). [ConnectCallback (Some x) None, BackoffCb (Some x), AmqpConnect])
         tries)
       @ snd (run_classified s evs))"
    using Cons.prems(1) r by (rule Cons.IH)
  finally show ?case by (simp add: t)
qed

lemma filter_failed_attempts:
  "filter isConnectCallback
     (concat (map (\<lambda>(f, x). [ConnectCallback (Some x) None, BackoffCb (Some x), AmqpConnect])
        tries)) =
   map (\<lambda>(f, x). ConnectCallback (Some x) None) tries"
  by (induction tries) (simp_all split: prod.splits)

lemma count_failed_attempts:
  "count_list
     (concat (map (\<lambda>(f, x). [ConnectCallback (Some x) None, BackoffCb (Some x), AmqpConnect])
        tries))
     AmqpConnect = length tries"
  by (induction tries) (simp_all split: prod.splits)

lemma no_reconnect_failed_attempts:
  "NextTickConnect \<notin> set
     (concat (map (\<lambda>(f, x). [ConnectCallback (Some x) None, BackoffCb (Some x), AmqpConnect])
        tries))"
  by (induction tries) (simp_all split: prod.splits)

lemma give_up_failed_attempts:
  "count_list
     (concat (map (\<lambda>(f, x). [ConnectCallback (Some x) None, BackoffCb (Some x), AmqpConnect])
        tries))
     OnGiveUp = 0"
  by (induction tries) (simp_all split: prod.splits)

text \<open>Once the loop has stopped without a connection, no event is possible any more.\<close>

lemma run_classified_stopped:
  assumes "con s = None" "spec s = Completed"
  shows "run_classified s evs = (s, [])"
  using assms
proof (induction evs)
  case Nil
  then show ?case by simp
next
  case (Cons a evs)
  obtain f ev where a: "a = (f, ev)" by (cases a)
  from Cons.prems have "step f s ev = (s, [])" by (cases ev) simp_all
  with Cons show ?case by (simp add: a)
qed

section \<open>The close event of the connection\<close>

text \<open>
  C1. When a connected raw connection emits \<^verbatim>\<open>close\<close>, the handler schedules a new
  \<^verbatim>\<open>connect\<close> if and only if \<^verbatim>\<open>activeConnection\<close> is still set and the last recorded
  error, if there is one, is not classified unrecoverable by \<^verbatim>\<open>isErrorUnrecoverable\<close>;
  when it schedules, it schedules one call and does nothing else.
\<close>

theorem close_event_reconnects_iff:
  assumes "con s = Some c"
  shows "(NextTickConnect \<in> set (snd (step iU s ConCloseEvent))) =
           (activeConnection s \<noteq> None \<and> (\<forall>e. lastError s = Some e \<longrightarrow> \<not> iU e)) \<and>
         snd (step iU s ConCloseEvent) =
           (if activeConnection s \<noteq> None \<and> recoverable iU (lastError s)
            then [NextTickConnect] else [])"
  using assms by (auto simp: con_on_close_def recoverable_def split: option.splits)

theorem close_event_reconnects_iff_witness:
  "con example_connected = Some 7 \<and>
   NextTickConnect \<in> set (snd (step example_classifier example_connected ConCloseEvent)) \<and>
   NextTickConnect \<notin> set (snd (step example_classifier
      (example_connected\<lparr>lastError := Some example_fatal\<rparr>) ConCloseEvent)) \<and>
   NextTickConnect \<notin> set (snd (step example_classifier
      (example_connected\<lparr>activeConnection := None\<rparr>) ConCloseEvent))"
  using close_event_reconnects_iff [of example_connected 7 example_classifier]
    close_event_reconnects_iff [of "example_connected\<lparr>lastError := Some example_fatal\<rparr>" 7
      example_classifier]
    close_event_reconnects_iff [of "example_connected\<lparr>activeConnection := None\<rparr>" 7
      example_classifier]
  by (simp add: example_connected_eq example_defs recoverable_def)

section \<open>The attempt loop and the connect callback\<close>

text \<open>
  C2. Let \<open>n \<ge> 1\<close> consecutive attempts fail with errors that the classifier does not call
  unrecoverable, and let the next attempt succeed. Then \<^verbatim>\<open>connectCallback\<close> is invoked
  once per failed attempt with that attempt's error and no connection, in order, and then
  once with no error and the wrapper; there are as many invocations as there are attempts.
\<close>

theorem connect_callback_every_attempt:
  assumes "errs \<noteq> []" and "\<forall>e\<in>set errs. \<not> iU e"
  shows "filter isConnectCallback
           (snd (run iU (fst connect) (failures errs @ [AmqpConnectOk c]))) =
           map (\<lambda>e. ConnectCallback (Some e) None) errs @ [ConnectCallback None (Some c)] \<and>
         length (filter isConnectCallback
           (snd (run iU (fst connect) (failures errs @ [AmqpConnectOk c])))) =
           count_list (snd connect @ snd (run iU (fst connect) (failures errs @ [AmqpConnectOk c])))
             AmqpConnect"
proof -
  have p: "spec (fst connect) = Pending" by (simp add: connect_eq)
  have ok: "snd (run iU (fst connect) [AmqpConnectOk c]) =
      [ConnectCallback None (Some c), BackoffCb None, OnGiveUp]"
    using p by (simp add: amqp_connect_ok_eq)
  have "snd (run iU (fst connect) (failures errs @ [AmqpConnectOk c])) =
      concat (map (\<lambda>e. [ConnectCallback (Some e) None, BackoffCb (Some e), AmqpConnect]) errs)
      @ snd (run iU (fst connect) [AmqpConnectOk c])"
    by (simp only: run_failures [of "fst connect" errs iU "[AmqpConnectOk c]", OF p assms(2)]
        snd_conv)
  then show ?thesis
    unfolding ok by (simp add: filter_failures count_failures connect_eq(2))
qed

theorem connect_callback_every_attempt_witness:
  "[example_error, example_illegal] \<noteq> [] \<and>
   \<not> example_classifier example_error \<and> \<not> example_classifier example_illegal \<and>
   filter isConnectCallback
     (snd (run example_classifier (fst connect)
        (failures [example_error, example_illegal] @ [AmqpConnectOk 7]))) =
     [ConnectCallback (Some example_error) None, ConnectCallback (Some example_illegal) None,
      ConnectCallback None (Some 7)]"
proof -
  have h1: "[example_error, example_illegal] \<noteq> []" by simp
  have h2: "\<forall>e\<in>set [example_error, example_illegal]. \<not> example_classifier e"
    by (simp add: example_defs)
  from connect_callback_every_attempt [OF h1 h2, of 7] h1 h2 show ?thesis by simp
qed

text \<open>
  C3. Let the classifier answer true for the error of attempt \<open>k\<close>, after answering false
  for the errors of the \<open>k - 1\<close> failed attempts before it; it is asked afresh at each
  attempt and need not answer the same for the same error. Then, whatever happens
  afterwards, \<^verbatim>\<open>amqp.connect\<close> has been called \<open>k\<close> times and is not called again, no
  \<^verbatim>\<open>connect\<close> is scheduled, the loop has stopped and has invoked the callback given to
  \<^verbatim>\<open>backoff.call\<close>, and \<^verbatim>\<open>connectCallback\<close> has been invoked exactly \<open>k\<close> times, once
  per failed attempt with that attempt's error.
\<close>

theorem unrecoverable_stops_loop:
  assumes "\<forall>(f, x)\<in>set tries. \<not> f x" and "iU e"
  shows "snd (run_classified (fst connect)
             (failed_attempts tries @ (iU, AmqpConnectError e) # rest)) =
           concat (map (\<lambda>(f, x). [ConnectCallback (Some x) None, BackoffCb (Some x), AmqpConnect])
             tries) @
           [ConnectCallback (Some e) None, BackoffCb None, OnGiveUp] \<and>
         filter isConnectCallback
           (snd (run_classified (fst connect)
              (failed_attempts tries @ (iU, AmqpConnectError e) # rest))) =
           map (\<lambda>(f, x). ConnectCallback (Some x) None) tries @ [ConnectCallback (Some e) None] \<and>
         count_list
           (snd connect @
            snd (run_classified (fst connect)
              (failed_attempts tries @ (iU, AmqpConnectError e) # rest)))
           AmqpConnect = length tries + 1 \<and>
         count_list
           (snd (run_classified (fst connect)
              (failed_attempts tries @ (iU, AmqpConnectError e) # rest)))
           OnGiveUp = 1 \<and>
         NextTickConnect \<notin> set
           (snd (run_classified (fst connect)
              (failed_attempts tries @ (iU, AmqpConnectError e) # rest))) \<and>
         spec (fst (run_classified (fst connect)
              (failed_attempts tries @ (iU, AmqpConnectError e) # rest))) = Completed \<and>
         con (fst (run_classified (fst connect)
              (failed_attempts tries @ (iU, AmqpConnectError e) # rest))) = None"
proof -
  let ?evs = "failed_attempts tries @ (iU, AmqpConnectError e) # rest"
  let ?s = "(fst connect)\<lparr>spec := Completed\<rparr>"
  have p: "spec (fst connect) = Pending" by (simp add: connect_eq)
  have st: "step iU (fst connect) (AmqpConnectError e) =
      (?s, [ConnectCallback (Some e) None, BackoffCb None, OnGiveUp])"
    using assms(2) p by (simp add: amqp_connect_failed_unrecoverable)
  have d: "con ?s = None" "spec ?s = Completed" by (simp_all add: connect_eq)
  then have "run_classified ?s rest = (?s, [])" by (rule run_classified_stopped)
  with st have t: "run_classified (fst connect) ((iU, AmqpConnectError e) # rest) =
      (?s, [ConnectCallback (Some e) None, BackoffCb None, OnGiveUp])"
    by simp
  have r: "run_classified (fst connect) ?evs =
      (?s, concat (map (\<lambda>(f, x). [ConnectCallback (Some x) None, BackoffCb (Some x), AmqpConnect])
             tries)
           @ [ConnectCallback (Some e) None, BackoffCb None, OnGiveUp])"
    using run_failed_attempts [of "fst connect" tries "(iU, AmqpConnectError e) # rest",
        OF p assms(1)]
    unfolding t by simp
  show ?thesis
    unfolding r
    by (simp add: filter_failed_attempts count_failed_attempts no_reconnect_failed_attempts
        give_up_failed_attempts connect_eq(2) d)
qed

theorem unrecoverable_stops_loop_witness:
  "\<not> example_classifier example_error \<and>
   filter isConnectCallback
     (snd (run_classified (fst connect)
        (failed_attempts [(example_classifier, example_error), (\<lambda>e. False, example_error)] @
         (\<lambda>e. True, AmqpConnectError example_error) #
         [(\<lambda>e. True, BackoffElapsed), (example_classifier, AmqpConnectOk 7),
          (example_classifier, ConCloseEvent)]))) =
     [ConnectCallback (Some example_error) None, ConnectCallback (Some example_error) None,
      ConnectCallback (Some example_error) None] \<and>
   count_list
     (snd connect @ snd (run_classified (fst connect)
        (failed_attempts [(example_classifier, example_error), (\<lambda>e. False, example_error)] @
         (\<lambda>e. True, AmqpConnectError example_error) #
         [(\<lambda>e. True, BackoffElapsed), (example_classifier, AmqpConnectOk 7),
          (example_classifier, ConCloseEvent)])))
     AmqpConnect = 3"
proof -
  have h1: "\<forall>(f, x)\<in>set [(example_classifier, example_error), (\<lambda>e. False, example_error)].
      \<not> f x"
    by (simp add: example_defs)
  have h2: "(\<lambda>e. True) example_error" by simp
  from unrecoverable_stops_loop [of "[(example_classifier, example_error), (\<lambda>e. False, example_error)]"
      "\<lambda>e. True" example_error
      "[(\<lambda>e. True, BackoffElapsed), (example_classifier, AmqpConnectOk 7),
        (example_classifier, ConCloseEvent)]", OF h1 h2] h1
  show ?thesis by (simp add: connect_eq(2))
qed

section \<open>Closing through the connection wrapper\<close>

text \<open>
  C4. The wrapper's \<^verbatim>\<open>close(cb)\<close> clears \<^verbatim>\<open>activeConnection\<close> before it calls the raw
  \<^verbatim>\<open>con.close(cb)\<close>: the marker is cleared whether or not the raw call raises. Whatever
  happens after the call, the close event of the raw connection included, no new
  \<^verbatim>\<open>connect\<close> is scheduled.
\<close>

theorem close_never_reconnects:
  assumes "connected s c"
  shows "activeConnection (fst (step iU s (CallClose cb thrown))) = None \<and>
         filter isConClose (snd (step iU s (CallClose cb thrown))) = [ConClose c cb] \<and>
         NextTickConnect \<notin> set (snd (run iU s (CallClose cb thrown # evs @ [ConCloseEvent])))"
proof -
  let ?s1 = "fst (step iU s (CallClose cb thrown))"
  from assms have 1: "activeConnection ?s1 = None"
    "filter isConClose (snd (step iU s (CallClose cb thrown))) = [ConClose c cb]"
    "NextTickConnect \<notin> set (snd (step iU s (CallClose cb thrown)))"
    by (auto simp: connected_def close_def throwing_def uncaught_def
        split: option.splits sum.splits)
  from assms have "connected ?s1 c" by (rule step_connected)
  from run_inactive [OF this 1(1)] 1 show ?thesis by (simp only: run_Cons) simp
qed

theorem close_never_reconnects_witness:
  "connected example_connected 7 \<and>
   activeConnection (fst (step example_classifier example_connected
     (CallClose (Some 2) (Some example_illegal)))) = None \<and>
   NextTickConnect \<notin> set (snd (run example_classifier example_connected
     (CallClose (Some 2) None # [ConErrorEvent example_error, CallCloseAndReconnect None None] @
      [ConCloseEvent])))"
proof -
  have h: "connected example_connected 7" by (simp add: connected_def example_connected_eq)
  from close_never_reconnects [OF h, of example_classifier "Some 2" "Some example_illegal"]
    close_never_reconnects [OF h, of example_classifier "Some 2" None
      "[ConErrorEvent example_error, CallCloseAndReconnect None None]"] h
  show ?thesis by simp
qed

text \<open>
  C5. The wrapper's \<^verbatim>\<open>closeAndReconnect(cb)\<close> calls the raw \<^verbatim>\<open>con.close(cb)\<close> and
  leaves every variable, \<^verbatim>\<open>activeConnection\<close> included, as it was. That alone does not
  make the close event reconnect: on a wrapper whose \<^verbatim>\<open>close\<close> was called, before
  \<^verbatim>\<open>closeAndReconnect\<close> or between it and the close event, the marker is cleared and
  the close event schedules nothing, although no error was recorded.
\<close>

theorem closeAndReconnect_after_close_counterexample:
  "lastError (fst (run example_classifier (fst connect)
      [AmqpConnectOk 7, CallClose None None,
       CallCloseAndReconnect (Some 2) (Some example_illegal)])) = None \<and>
   filter isConClose (snd (run example_classifier (fst connect)
      [AmqpConnectOk 7, CallClose None None,
       CallCloseAndReconnect (Some 2) (Some example_illegal), ConCloseEvent])) =
     [ConClose 7 None, ConClose 7 (Some 2)] \<and>
   count_list (snd (run example_classifier (fst connect)
      [AmqpConnectOk 7, CallClose None None,
       CallCloseAndReconnect (Some 2) (Some example_illegal), ConCloseEvent]))
     NextTickConnect = 0 \<and>
   lastError (fst (run example_classifier (fst connect)
      [AmqpConnectOk 7, CallCloseAndReconnect (Some 2) None,
       CallClose None (Some example_illegal)])) = None \<and>
   filter isConClose (snd (run example_classifier (fst connect)
      [AmqpConnectOk 7, CallCloseAndReconnect (Some 2) None,
       CallClose None (Some example_illegal), ConCloseEvent])) =
     [ConClose 7 (Some 2), ConClose 7 None] \<and>
   count_list (snd (run example_classifier (fst connect)
      [AmqpConnectOk 7, CallCloseAndReconnect (Some 2) None,
       CallClose None (Some example_illegal), ConCloseEvent]))
     NextTickConnect = 0"
  by (simp add: connect_eq amqp_connect_ok_eq handler_defs)

text \<open>
  C5, amended. The wrapper's \<^verbatim>\<open>closeAndReconnect(cb)\<close> calls the raw
  \<^verbatim>\<open>con.close(cb)\<close> once and leaves every variable, \<^verbatim>\<open>activeConnection\<close> included, as
  it was. On a wrapper whose \<^verbatim>\<open>close\<close> has not been called by the time the raw
  connection emits \<^verbatim>\<open>close\<close>, and with no recorded error classified unrecoverable, that
  close event schedules exactly one new \<^verbatim>\<open>connect\<close>.
\<close>

theorem closeAndReconnect_reconnects_once:
  assumes "spec s0 = Pending"
    and "\<forall>ev\<in>set (evs @ mid). \<not> isCallClose ev"
    and "s = fst (run iU s0 (AmqpConnectOk c # evs))"
    and "s' = fst (run iU s (CallCloseAndReconnect cb thrown # mid))"
    and "recoverable iU (lastError s')"
  shows "fst (step iU s (CallCloseAndReconnect cb thrown)) = s \<and>
         snd (step iU s (CallCloseAndReconnect cb thrown)) =
           ConClose c cb # (case thrown of None \<Rightarrow> [] | Some e \<Rightarrow> [Uncaught e]) \<and>
         snd (step iU s' ConCloseEvent) = [NextTickConnect]"
proof -
  let ?s1 = "fst (step iU s0 (AmqpConnectOk c))"
  from assms(1) have c1: "connected ?s1 c" and a1: "activeConnection ?s1 = Some c"
    by (simp_all add: connected_def amqp_connect_ok_eq)
  have s: "s = fst (run iU ?s1 evs)" by (simp only: assms(3) run_Cons)
  from c1 have c: "connected s c" unfolding s by (rule run_connected)
  from assms(2) have n1: "\<forall>ev\<in>set evs. \<not> isCallClose ev"
    and n2: "\<forall>ev\<in>set (CallCloseAndReconnect cb thrown # mid). \<not> isCallClose ev"
    by simp_all
  from run_active [OF c1 n1] a1 have a: "activeConnection s = Some c" by (simp add: s)
  from c have c': "connected s' c" unfolding assms(4) by (rule run_connected)
  from run_active [OF c n2] a have a': "activeConnection s' = Some c" by (simp add: assms(4))
  from c have 1: "fst (step iU s (CallCloseAndReconnect cb thrown)) = s"
    "snd (step iU s (CallCloseAndReconnect cb thrown)) =
       ConClose c cb # (case thrown of None \<Rightarrow> [] | Some e \<Rightarrow> [Uncaught e])"
    by (auto simp: connected_def handler_defs split: option.splits)
  from c' a' assms(5) have 2: "snd (step iU s' ConCloseEvent) = [NextTickConnect]"
    by (simp add: connected_def recoverable_def con_on_close_def)
  from 1 2 show ?thesis by simp
qed

theorem closeAndReconnect_reconnects_once_witness:
  "spec (fst connect) = Pending \<and>
   \<not> isCallClose (ConErrorEvent example_error) \<and> \<not> isCallClose (CallCreateChannel 1) \<and>
   recoverable example_classifier
     (lastError (fst (run example_classifier
        (fst (run example_classifier (fst connect)
           (AmqpConnectOk 7 # [ConErrorEvent example_error])))
        (CallCloseAndReconnect (Some 2) None # [CallCreateChannel 1])))) \<and>
   snd (step example_classifier
     (fst (run example_classifier
        (fst (run example_classifier (fst connect)
           (AmqpConnectOk 7 # [ConErrorEvent example_error])))
        (CallCloseAndReconnect (Some 2) None # [CallCreateChannel 1])))
     ConCloseEvent) = [NextTickConnect]"
proof -
  have h1: "spec (fst connect) = Pending" by (simp add: connect_eq)
  have h2: "\<forall>ev\<in>set ([ConErrorEvent example_error] @ [CallCreateChannel 1]). \<not> isCallClose ev"
    by simp
  have h5: "recoverable example_classifier
     (lastError (fst (run example_classifier
        (fst (run example_classifier (fst connect)
           (AmqpConnectOk 7 # [ConErrorEvent example_error])))
        (CallCloseAndReconnect (Some 2) None # [CallCreateChannel 1]))))"
    by (simp add: connect_eq amqp_connect_ok_eq handler_defs recoverable_def example_defs)
  from closeAndReconnect_reconnects_once [OF h1 h2 refl refl h5] h1 h5
  show ?thesis by simp
qed

text \<open>
  C6. The wrapper's property \<^verbatim>\<open>closed\<close> is false when the wrapper is delivered; after
  any events it is true exactly when the raw connection's close event was among them, so
  it turns true at the first close event; once true it stays true.
\<close>

theorem closed_latched:
  assumes "spec s0 = Pending" and "s = fst (step iU s0 (AmqpConnectOk c))"
  shows "\<not> closed s \<and>
         closed (fst (run iU s evs)) = (ConCloseEvent \<in> set evs) \<and>
         (closed (fst (run iU s evs)) \<longrightarrow> closed (fst (run iU s (evs @ evs'))))"
proof -
  from assms have c: "connected s c" and n: "\<not> closed s"
    by (simp_all add: connected_def closed_def amqp_connect_ok_eq)
  from run_closed [OF c] n show ?thesis by auto
qed

theorem closed_latched_witness:
  "spec (fst connect) = Pending \<and>
   \<not> closed (fst (step example_classifier (fst connect) (AmqpConnectOk 7))) \<and>
   \<not> closed (fst (run example_classifier
       (fst (step example_classifier (fst connect) (AmqpConnectOk 7)))
       [ConErrorEvent example_error, CallClose None None])) \<and>
   closed (fst (run example_classifier
       (fst (step example_classifier (fst connect) (AmqpConnectOk 7)))
       ([ConErrorEvent example_error, ConCloseEvent] @ [ConErrorEvent example_error])))"
proof -
  have h: "spec (fst connect) = Pending" by (simp add: connect_eq)
  from closed_latched [OF h refl, of example_classifier 7
      "[ConErrorEvent example_error, CallClose None None]"]
    closed_latched [OF h refl, of example_classifier 7
      "[ConErrorEvent example_error, ConCloseEvent]" "[ConErrorEvent example_error]"] h
  show ?thesis by simp
qed

section \<open>Channels\<close>

text \<open>
  C7. Take a channel from the moment it is wrapped; the raw client hands out each channel
  object once. The proxy's \<^verbatim>\<open>close(cb)\<close> sets \<^verbatim>\<open>channelClosedByClient\<close> and calls the
  raw channel's \<^verbatim>\<open>close(cb)\<close> once; the flag is set whether or not that call raises, so
  it is set before the call. When the channel then emits \<^verbatim>\<open>close\<close>, the handler does not
  close the parent connection if the proxy's \<^verbatim>\<open>close\<close> was called at any time since the
  channel was wrapped, and calls the raw \<^verbatim>\<open>con.close()\<close> exactly once if it was not.
\<close>

theorem channel_close_event_closes_connection:
  assumes "connected s0 c" and "channels s0 ch = None"
    and "\<forall>ev\<in>set evs. \<not> isChannelOk ch ev"
    and "s = fst (run iU s0 (ChannelOk cb ch # evs))"
  shows "snd (step iU s (CallChannelClose ch cb' thrown')) =
           ChClose ch cb' # (case thrown' of None \<Rightarrow> [] | Some e \<Rightarrow> [Uncaught e]) \<and>
         map_option channelClosedByClient
           (channels (fst (step iU s (CallChannelClose ch cb' thrown'))) ch) = Some True \<and>
         filter isConClose
           (snd (step iU (fst (step iU s (CallChannelClose ch cb' thrown')))
              (ChCloseEvent ch thrown))) = [] \<and>
         filter isConClose (snd (step iU s (ChCloseEvent ch thrown))) =
           (if \<exists>ev\<in>set evs. isCallChannelClose ch ev then [] else [ConClose c None])"
proof -
  let ?s1 = "fst (step iU s0 (ChannelOk cb ch))"
  from assms(1) have c1: "connected ?s1 c" by (rule step_connected)
  from assms(1,2) have v1:
    "channels ?s1 ch = Some \<lparr>channelClosedByClient = False, channelClosed = False\<rparr>"
    by (simp add: connected_def channelCallback_ok_def)
  have s: "s = fst (run iU ?s1 evs)" by (simp only: assms(4) run_Cons)
  from c1 have c: "connected s c" unfolding s by (rule run_connected)
  from run_channel [OF c1 v1, of iU evs] obtain v where
    v: "channels s ch = Some v"
      "channelClosedByClient v = (\<exists>ev\<in>set evs. isCallChannelClose ch ev)"
    unfolding s by auto
  from c v(1) have 1: "snd (step iU s (CallChannelClose ch cb' thrown')) =
      ChClose ch cb' # (case thrown' of None \<Rightarrow> [] | Some e \<Rightarrow> [Uncaught e])"
    by (auto simp: connected_def handler_defs split: option.splits)
  from c v(1) have 2: "map_option channelClosedByClient
      (channels (fst (step iU s (CallChannelClose ch cb' thrown'))) ch) = Some True"
    by (simp add: connected_def handler_defs)
  from c v(1) have 3: "filter isConClose
      (snd (step iU (fst (step iU s (CallChannelClose ch cb' thrown')))
         (ChCloseEvent ch thrown))) = []"
    by (simp add: connected_def handler_defs)
  from c v have 4: "filter isConClose (snd (step iU s (ChCloseEvent ch thrown))) =
      (if \<exists>ev\<in>set evs. isCallChannelClose ch ev then [] else [ConClose c None])"
    by (auto simp: connected_def handler_defs split: option.splits sum.splits)
  from 1 2 3 4 show ?thesis by simp
qed

theorem channel_close_event_closes_connection_witness:
  "connected example_connected 7 \<and> channels example_connected 3 = None \<and>
   snd (step example_classifier
     (fst (run example_classifier example_connected
        (ChannelOk 1 3 # [ChErrorEvent 3 example_error])))
     (CallChannelClose 3 (Some 5) (Some example_illegal))) =
     [ChClose 3 (Some 5), Uncaught example_illegal] \<and>
   filter isConClose (snd (step example_classifier
     (fst (run example_classifier example_connected
        (ChannelOk 1 3 # [ChErrorEvent 3 example_error, CallChannelClose 3 None (Some example_illegal)])))
     (ChCloseEvent 3 None))) = [] \<and>
   filter isConClose (snd (step example_classifier
     (fst (run example_classifier example_connected
        (ChannelOk 1 3 # [ChErrorEvent 3 example_error, ChannelOk 2 4, CallChannelClose 4 None None])))
     (ChCloseEvent 3 None))) = [ConClose 7 None]"
proof -
  have h1: "connected example_connected 7" by (simp add: connected_def example_connected_eq)
  have h2: "channels example_connected 3 = None" by (simp add: example_connected_eq)
  have h3: "\<forall>ev\<in>set [ChErrorEvent 3 example_error]. \<not> isChannelOk 3 ev" by simp
  have h4: "\<forall>ev\<in>set [ChErrorEvent 3 example_error,
      CallChannelClose 3 None (Some example_illegal)]. \<not> isChannelOk 3 ev" by simp
  have h5: "\<forall>ev\<in>set [ChErrorEvent 3 example_error, ChannelOk 2 4,
      CallChannelClose 4 None None]. \<not> isChannelOk 3 ev" by simp
  from channel_close_event_closes_connection [OF h1 h2 h3 refl, of example_classifier 1
      "Some 5" "Some example_illegal" None]
    channel_close_event_closes_connection [OF h1 h2 h4 refl, of example_classifier 1
      None None None]
    channel_close_event_closes_connection [OF h1 h2 h5 refl, of example_classifier 1
      None None None]
    h1 h2
  show ?thesis by simp
qed

text \<open>
  C8. When a channel that its proxy did not close emits \<^verbatim>\<open>close\<close>, the handler calls
  the raw \<^verbatim>\<open>con.close()\<close>. An exception raised by that call is swallowed if its name is
  \<^verbatim>\<open>IllegalOperationError\<close> and leaves the handler otherwise.
\<close>

theorem forced_close_swallows_illegal_operation_only:
  assumes "con s = Some c" and "channels s ch = Some v" and "\<not> channelClosedByClient v"
  shows "snd (step iU s (ChCloseEvent ch (Some e))) =
           ConClose c None # (if name e = ''IllegalOperationError'' then [] else [Uncaught e]) \<and>
         (snd (closeConnection c (Some e)) = Inr ()) = (name e = ''IllegalOperationError'') \<and>
         (snd (closeConnection c (Some e)) = Inl e) = (name e \<noteq> ''IllegalOperationError'')"
  using assms by (simp add: handler_defs)

theorem forced_close_swallows_illegal_operation_only_witness:
  "con example_channel = Some 7 \<and>
   channels example_channel 3 = Some \<lparr>channelClosedByClient = False, channelClosed = False\<rparr> \<and>
   snd (step example_classifier example_channel (ChCloseEvent 3 (Some example_illegal))) =
     [ConClose 7 None] \<and>
   snd (step example_classifier example_channel (ChCloseEvent 3 (Some example_error))) =
     [ConClose 7 None, Uncaught example_error]"
proof -
  have h1: "con example_channel = Some 7" by (simp add: example_channel_eq)
  have h2: "channels example_channel 3 =
      Some \<lparr>channelClosedByClient = False, channelClosed = False\<rparr>"
    by (simp add: example_channel_eq)
  have h3: "\<not> channelClosedByClient \<lparr>channelClosedByClient = False, channelClosed = False\<rparr>"
    by simp
  from forced_close_swallows_illegal_operation_only [OF h1 h2 h3, of example_classifier example_illegal]
    forced_close_swallows_illegal_operation_only [OF h1 h2 h3, of example_classifier example_error]
    h1 h2
  show ?thesis by (simp add: example_defs)
qed

text \<open>
  C10. When the raw \<^verbatim>\<open>createChannel\<close> or \<^verbatim>\<open>createConfirmChannel\<close> reports an error,
  the handler reports it once through \<^verbatim>\<open>onError\<close>, invokes the caller's callback once
  with the error and no channel, and only then calls the raw \<^verbatim>\<open>con.close()\<close>. The error
  is recorded as \<^verbatim>\<open>lastError\<close>, so the close event that follows schedules a new
  \<^verbatim>\<open>connect\<close> exactly when \<^verbatim>\<open>activeConnection\<close> is set and the classifier does not call
  this error unrecoverable.
\<close>

theorem channel_creation_failure:
  assumes "con s = Some c"
  shows "snd (step iU s (ChannelError cb err thrown)) =
           [OnError (''Failed to create a channel ('' @ message err @ '')''),
            ChannelCb cb (Some err) None, ConClose c None] @
           (case thrown of None \<Rightarrow> []
            | Some e \<Rightarrow> if name e = ''IllegalOperationError'' then [] else [Uncaught e]) \<and>
         lastError (fst (step iU s (ChannelError cb err thrown))) = Some err \<and>
         snd (step iU (fst (step iU s (ChannelError cb err thrown))) ConCloseEvent) =
           (if activeConnection s \<noteq> None \<and> \<not> iU err then [NextTickConnect] else [])"
  using assms by (auto simp: handler_defs split: option.splits)

theorem channel_creation_failure_witness:
  "con (example_connected\<lparr>lastError := Some example_error\<rparr>) = Some 7 \<and>
   snd (step example_classifier (example_connected\<lparr>lastError := Some example_error\<rparr>)
      (ChannelError 1 example_fatal None)) =
     [OnError ''Failed to create a channel (ACCESS_REFUSED)'',
      ChannelCb 1 (Some example_fatal) None, ConClose 7 None] \<and>
   snd (step example_classifier
      (fst (step example_classifier (example_connected\<lparr>lastError := Some example_error\<rparr>)
         (ChannelError 1 example_fatal None))) ConCloseEvent) = [] \<and>
   snd (step example_classifier
      (fst (step example_classifier (example_connected\<lparr>lastError := Some example_fatal\<rparr>)
         (ChannelError 1 example_error None))) ConCloseEvent) = [NextTickConnect]"
proof -
  have h1: "con (example_connected\<lparr>lastError := Some example_error\<rparr>) = Some 7"
    by (simp add: example_connected_eq)
  have h2: "con (example_connected\<lparr>lastError := Some example_fatal\<rparr>) = Some 7"
    by (simp add: example_connected_eq)
  from channel_creation_failure [OF h1, of example_classifier 1 example_fatal None]
    channel_creation_failure [OF h2, of example_classifier 1 example_error None] h1
  show ?thesis by (simp add: example_connected_eq example_defs)
qed

section \<open>The error event of the connection\<close>

text \<open>
  C9. When a connected raw connection emits \<^verbatim>\<open>error\<close>, the handler records the error
  as \<^verbatim>\<open>lastError\<close> and invokes \<^verbatim>\<open>onError\<close> with the message
  \<^verbatim>\<open>Connection failed (...)\<close>, and nothing else: no other variable changes, the
  connection is not closed and no \<^verbatim>\<open>connect\<close> is scheduled.
\<close>

theorem connection_error_event_only_records:
  assumes "con s = Some c"
  shows "step iU s (ConErrorEvent err) =
           (s\<lparr>lastError := Some err\<rparr>,
            [OnError (''Connection failed ('' @ message err @ '')'')]) \<and>
         activeConnection (fst (step iU s (ConErrorEvent err))) = activeConnection s \<and>
         connectionClosed (fst (step iU s (ConErrorEvent err))) = connectionClosed s \<and>
         filter isConClose (snd (step iU s (ConErrorEvent err))) = [] \<and>
         NextTickConnect \<notin> set (snd (step iU s (ConErrorEvent err)))"
  using assms by (simp add: con_on_error_def)

theorem connection_error_event_only_records_witness:
  "con example_connected = Some 7 \<and>
   step example_classifier example_connected (ConErrorEvent example_fatal) =
     (example_connected\<lparr>lastError := Some example_fatal\<rparr>,
      [OnError ''Connection failed (ACCESS_REFUSED)''])"
proof -
  have h: "con example_connected = Some 7" by (simp add: example_connected_eq)
  from connection_error_event_only_records [OF h, of example_classifier example_fatal] h
  show ?thesis by (simp add: example_defs)
qed

end
